theory Spec2Isabelle
  imports Main "HOL-Library.Word"
begin

section \<open>The cell agent's entry point (cmd/rep/main.go)\<close>

text \<open>
  The program is the \<^verbatim>\<open>main\<close> package of the cell agent: it reads a configuration,
  builds the components of the agent, wires them to each other and hands them to a
  supervisor. Everything it calls outside the file (configuration loader, logger,
  executor, queue, supervisor, the standard library's file and certificate functions)
  is an input of the model: the record \<open>env\<close> below holds what each such call
  returns in one run. A Go \<^verbatim>\<open>string\<close> is a sequence of bytes, modelled as
  \<^typ>\<open>string\<close>.
\<close>

subsection \<open>How a call ends\<close>

text \<open>
  \<open>Panic\<close> is a Go panic that nothing recovers (an explicit \<^verbatim>\<open>panic(...)\<close> or a
  run-time error), \<open>Fatal\<close> is \<^verbatim>\<open>logger.Fatal(action, err)\<close>, which logs at the fatal
  level and then panics, and \<open>Exit\<close> is \<^verbatim>\<open>os.Exit(status)\<close>. A call that returns
  normally is \<open>Inr\<close> of its value; a Go \<^verbatim>\<open>error\<close> value is a \<^typ>\<open>string option\<close>,
  \<open>None\<close> for \<^verbatim>\<open>nil\<close>.
\<close>

datatype stop = Panic string | Fatal string | Exit nat


definition indexOutOfRange :: "nat \<Rightarrow> nat \<Rightarrow> stop" where
  "indexOutOfRange i n = Panic ''runtime error: index out of range''"

subsection \<open>String functions of the standard library used by main.go\<close>

text \<open>\<^verbatim>\<open>strings.Split(s, sep)\<close> for a separator of one byte: the pieces between the
  separators, one more than there are separators.\<close>

fun Split :: "string \<Rightarrow> char \<Rightarrow> string list" where
  "Split [] sep = [[]]"
| "Split (c # cs) sep =
     (if c = sep then [] # Split cs sep
      else (case Split cs sep of
              [] \<Rightarrow> [[c]]
            | piece # pieces \<Rightarrow> (c # piece) # pieces))"

text \<open>\<^verbatim>\<open>xs[1]\<close> on a slice: a run-time panic unless the slice has two elements.\<close>

definition index1 :: "'a list \<Rightarrow> stop + 'a" where
  "index1 xs = (if 1 < length xs then Inr (xs ! 1) else Inl (indexOutOfRange 1 (length xs)))"

text \<open>\<^verbatim>\<open>strings.Replace(cellID, "_", "-", -1)\<close>.\<close>

definition repHost :: "string \<Rightarrow> string" where
  "repHost cellID = map (\<lambda>c. if c = CHR ''_'' then CHR ''-'' else c) cellID"

text \<open>\<^verbatim>\<open>filepath.Ext\<close>: the bytes are scanned from the end of the path; the scan stops
  at a separator (no extension) or at a dot (the extension starts there). The second
  argument holds the bytes already passed.\<close>

fun extScan :: "string \<Rightarrow> string \<Rightarrow> string" where
  "extScan [] passed = []"
| "extScan (c # front) passed =
     (if c = CHR ''/'' then []
      else if c = CHR ''.'' then c # passed
      else extScan front (c # passed))"

definition Ext :: "string \<Rightarrow> string" where
  "Ext path = extScan (rev path) []"

text \<open>\<^verbatim>\<open>filepath.Base\<close> on a system whose separator is the slash and whose paths have
  no volume name.\<close>

definition Base :: "string \<Rightarrow> string" where
  "Base path =
     (if path = [] then ''.''
      else (let stripped = rev (dropWhile (\<lambda>c. c = CHR ''/'') (rev path));
                element = rev (takeWhile (\<lambda>c. c \<noteq> CHR ''/'') (rev stripped))
            in if element = [] then ''/'' else element))"

definition HasSuffix :: "string \<Rightarrow> string \<Rightarrow> bool" where
  "HasSuffix s suffix =
     (length suffix \<le> length s \<and> drop (length s - length suffix) s = suffix)"

definition TrimSuffix :: "string \<Rightarrow> string \<Rightarrow> string" where
  "TrimSuffix s suffix =
     (if HasSuffix s suffix then take (length s - length suffix) s else s)"

text \<open>
  \<^verbatim>\<open>strings.EqualFold(s, t)\<close> where \<open>t\<close> consists of ASCII bytes none of which is
  the letter k or s (the two ASCII letters that Unicode also folds with a character
  outside ASCII); main.go calls it with \<^verbatim>\<open>".tar"\<close>. For such a \<open>t\<close> the strings are
  equal under folding iff they have the same length and agree byte by byte up to the
  case of ASCII letters; a byte of \<open>s\<close> outside ASCII never matches.
\<close>

definition foldByte :: "char \<Rightarrow> char \<Rightarrow> bool" where
  "foldByte sr tr =
     (let a = (of_char sr :: nat); b = (of_char tr :: nat); lo = min a b; hi = max a b
      in a < 128 \<and> b < 128 \<and> (a = b \<or> (65 \<le> lo \<and> lo \<le> 90 \<and> hi = lo + 32)))"

fun EqualFold :: "string \<Rightarrow> string \<Rightarrow> bool" where
  "EqualFold [] [] = True"
| "EqualFold (sr # s) (tr # t) = (foldByte sr tr \<and> EqualFold s t)"
| "EqualFold [] (tr # t) = False"
| "EqualFold (sr # s) [] = False"

subsection \<open>The configuration\<close>

text \<open>The fields of \<^verbatim>\<open>config.RepConfig\<close> that main.go branches on or computes with.\<close>

record RepConfig =
  CellID :: string
  Zone :: string
  ListenAddr :: string
  ListenAddrSecurable :: string
  AdvertiseDomain :: string
  CertFile :: string
  ExtraRootfsDir :: string
  DebugAddress :: string

subsection \<open>repURL and repAddress\<close>

definition repURL :: "RepConfig \<Rightarrow> stop + string" where
  "repURL config =
     (case index1 (Split (ListenAddrSecurable config) CHR '':'') of
        Inl p \<Rightarrow> Inl p
      | Inr port \<Rightarrow>
          Inr (''https://'' @ repHost (CellID config) @ ''.'' @ AdvertiseDomain config
               @ '':'' @ port))"

text \<open>The first argument is what \<^verbatim>\<open>localip.LocalIP()\<close> returns: an error or the
  address.\<close>

definition repAddress :: "string + string \<Rightarrow> RepConfig \<Rightarrow> stop + string" where
  "repAddress localIP config =
     (case localIP of
        Inl err \<Rightarrow> Inl (Fatal ''failed-to-fetch-ip'')
      | Inr ip \<Rightarrow>
          (case index1 (Split (ListenAddr config) CHR '':'') of
             Inl p \<Rightarrow> Inl p
           | Inr port \<Rightarrow> Inr (''http://'' @ ip @ '':'' @ port)))"

subsection \<open>The extra root filesystems\<close>

text \<open>
  The callback main.go passes to \<^verbatim>\<open>filepath.WalkDir\<close>, on the map
  \<^verbatim>\<open>rootFSMap\<close> from stack names to paths: it returns the map and the error it
  hands back to the walk.
\<close>

definition rootfsKey :: "string \<Rightarrow> string" where
  "rootfsKey path = TrimSuffix (Base path) (Ext path)"

definition isTar :: "string \<Rightarrow> bool" where
  "isTar path = EqualFold (Ext path) ''.tar''"

definition walkFn ::
  "(string \<rightharpoonup> string) \<Rightarrow> string \<Rightarrow> string option \<Rightarrow> (string \<rightharpoonup> string) \<times> string option"
where
  "walkFn rootFSMap path err =
     (case err of
        Some e \<Rightarrow> (rootFSMap, Some e)
      | None \<Rightarrow>
          (if isTar path then (rootFSMap(rootfsKey path \<mapsto> path), None)
           else (rootFSMap, None)))"

text \<open>
  \<^verbatim>\<open>filepath.WalkDir\<close> calls the callback once per entry it visits, with the error
  it met there if any, and stops at the first call that returns an error, which it
  returns. The list holds the calls the walk makes as long as the callback returns
  \<^verbatim>\<open>nil\<close>, in order.
\<close>

fun WalkDir ::
  "(string \<times> string option) list \<Rightarrow> (string \<rightharpoonup> string) \<Rightarrow> (string \<rightharpoonup> string) \<times> string option"
where
  "WalkDir [] rootFSMap = (rootFSMap, None)"
| "WalkDir ((path, err) # rest) rootFSMap =
     (case walkFn rootFSMap path err of
        (m, Some e) \<Rightarrow> (m, Some e)
      | (m, None) \<Rightarrow> WalkDir rest m)"

subsection \<open>verifyCertificate\<close>

text \<open>
  An IP address is a \<^verbatim>\<open>net.IP\<close>, a slice of 4 or 16 bytes. \<open>loopback\<close> is what
  \<^verbatim>\<open>net.ParseIP("127.0.0.1")\<close> returns, the 16 byte form; \<open>IP_Equal\<close> is
  \<^verbatim>\<open>net.IP.Equal\<close>, which takes an IPv4 address and its 16 byte form to be equal.
\<close>

type_synonym IP = "8 word list"

definition v4InV6Prefix :: IP where
  "v4InV6Prefix = [0, 0, 0, 0, 0, 0, 0, 0, 0, 0, 255, 255]"

definition loopback :: IP where
  "loopback = v4InV6Prefix @ [127, 0, 0, 1]"

definition IP_Equal :: "IP \<Rightarrow> IP \<Rightarrow> bool" where
  "IP_Equal ip x =
     (if length ip = length x then ip = x
      else if length ip = 4 \<and> length x = 16 then take 12 x = v4InV6Prefix \<and> ip = drop 12 x
      else if length ip = 16 \<and> length x = 4 then take 12 ip = v4InV6Prefix \<and> drop 12 ip = x
      else False)"

record Certificate =
  IPAddresses :: "IP list"

text \<open>
  The standard library as verifyCertificate uses it. \<open>ReadFile\<close> gives an error or
  the contents of a file. \<open>TrimSpace\<close> is \<^verbatim>\<open>strings.TrimSpace\<close>.
  \<open>ParseCertificates\<close> is \<^verbatim>\<open>x509.ParseCertificates\<close>. \<open>pemBlock\<close> finds the
  next PEM block of a non-empty input: the block's decoded bytes and where the rest of
  the input starts, as the number of bytes after the first that the block takes up.
\<close>

record stdlib =
  ReadFile :: "string \<Rightarrow> string + string"
  TrimSpace :: "string \<Rightarrow> string"
  pemBlock :: "string \<Rightarrow> (string \<times> nat) option"
  ParseCertificates :: "string \<Rightarrow> string + Certificate list"

text \<open>\<^verbatim>\<open>pem.Decode(data)\<close>: the next block and the rest of the input, or
  \<^verbatim>\<open>nil\<close> and the input when there is no block. The rest is always a part of the
  input that starts after the block's first byte; an empty input has no block.\<close>

definition Decode :: "stdlib \<Rightarrow> string \<Rightarrow> string option \<times> string" where
  "Decode lib data =
     (if data = [] then (None, data)
      else (case pemBlock lib data of
              None \<Rightarrow> (None, data)
            | Some (body, n) \<Rightarrow> (Some body, drop (Suc n) data)))"

lemma Decode_shorter: "Decode lib data = (Some body, rest) \<Longrightarrow> length rest < length data"
  by (auto simp: Decode_def split: if_splits option.splits)

text \<open>The loop of verifyCertificate: \<open>None\<close> when a call of \<^verbatim>\<open>pem.Decode\<close> finds no
  block, else the bytes of all blocks, one after the other.\<close>

function decodeBlocks :: "stdlib \<Rightarrow> string \<Rightarrow> string \<Rightarrow> string option" where
  "decodeBlocks lib blocks certBytes =
     (case Decode lib certBytes of
        (None, rest) \<Rightarrow> None
      | (Some body, rest) \<Rightarrow>
          (if rest = [] then Some (blocks @ body)
           else decodeBlocks lib (blocks @ body) rest))"
  by pat_completeness auto
termination
  by (relation "measure (\<lambda>(lib, blocks, certBytes). length certBytes)")
     (auto dest: Decode_shorter [OF sym])

declare decodeBlocks.simps [simp del]

definition verifyCertificate :: "stdlib \<Rightarrow> string \<Rightarrow> stop + string option" where
  "verifyCertificate lib serverCertFile =
     (case ReadFile lib serverCertFile of
        Inl err \<Rightarrow> Inr (Some err)
      | Inr certBytes \<Rightarrow>
          (case decodeBlocks lib [] (TrimSpace lib certBytes) of
             None \<Rightarrow> Inr (Some ''failed parsing cert'')
           | Some blocks \<Rightarrow>
               (case ParseCertificates lib blocks of
                  Inl err \<Rightarrow> Inr (Some (''failed parsing cert: '' @ err))
                | Inr certs \<Rightarrow>
                    (case certs of
                       [] \<Rightarrow> Inl (indexOutOfRange 0 0)
                     | cert # others \<Rightarrow>
                         (if list_ex (\<lambda>ip. IP_Equal ip loopback) (IPAddresses cert)
                          then Inr None
                          else Inr (Some ''invalid SAN metadata. certificate needs to contain 127.0.0.1 for IP SAN metadata.''))))))"

subsection \<open>What a run does: the trace\<close>

text \<open>
  \<^verbatim>\<open>evacuation_context.New()\<close> returns three values, each a view of the one
  evacuation state it creates: main.go binds them to \<^verbatim>\<open>evacuatable\<close>,
  \<^verbatim>\<open>evacuationReporter\<close> and \<^verbatim>\<open>evacuationNotifier\<close>.
\<close>

datatype capability = Evacuatable | EvacuationReporter | EvacuationNotifier

text \<open>
  A run of main is recorded as the list of the calls it makes that build a component,
  write to the log or start the supervisor, in order. A component is referred to by the
  position of the call that built it, so two references are equal exactly when they
  are the same instance.
\<close>

type_synonym ref = nat

datatype event =
    LogError string
  | LogDebug string
  | LogInfo string
  | ExecutorInitialize
  | ExecutorCleanup
  | EvacuationContextNew
  | NewSlidingQueue nat
  | NewEvacuator capability
  | NewBBSClient
  | NewPresenceRunner string string
  | NewContainerAllocator
  | NewAuctionCellRep string capability
  | NewRequestMetricsNotifier "string list"
  | HandlersNew ref capability ref bool
  | NewRoutes bool
  | NewRouter ref ref
  | VerifyCertificate string
  | StartTLSServer string ref
  | GeneratorNew capability
  | NewEvacuationCleanup
  | NewBulker capability ref ref
  | NewEventConsumer ref ref
  | DebugServerRunner string
  | Invoke "string list"

text \<open>A piece of main: from the trace so far to the trace after it and how it ended.\<close>

type_synonym 'a step = "event list \<Rightarrow> event list \<times> (stop + 'a)"

definition result :: "'a \<Rightarrow> 'a step" where
  "result a tr = (tr, Inr a)"

definition halt :: "stop \<Rightarrow> 'a step" where
  "halt s tr = (tr, Inl s)"

definition emit :: "event \<Rightarrow> unit step" where
  "emit e tr = (tr @ [e], Inr ())"

definition new :: "event \<Rightarrow> ref step" where
  "new e tr = (tr @ [e], Inr (length tr))"

definition call :: "stop + 'a \<Rightarrow> 'a step" where
  "call r tr = (tr, r)"

definition andThen :: "'a step \<Rightarrow> ('a \<Rightarrow> 'b step) \<Rightarrow> 'b step" where
  "andThen m f tr =
     (case m tr of
        (tr', Inl s) \<Rightarrow> (tr', Inl s)
      | (tr', Inr a) \<Rightarrow> f a tr')"

text \<open>\<^verbatim>\<open>if err != nil { logger.Fatal(action, err) }\<close>\<close>

definition fatalOn :: "string option \<Rightarrow> string \<Rightarrow> unit step" where
  "fatalOn err action = (case err of Some e \<Rightarrow> halt (Fatal action) | None \<Rightarrow> result ())"

text \<open>\<^verbatim>\<open>if err != nil { logger.Error(action, err); os.Exit(1) }\<close>\<close>

definition exitOn :: "string option \<Rightarrow> string \<Rightarrow> unit step" where
  "exitOn err action =
     (case err of
        Some e \<Rightarrow> andThen (emit (LogError action)) (\<lambda>u. halt (Exit 1))
      | None \<Rightarrow> result ())"

text \<open>\<^verbatim>\<open>defer f()\<close> around the rest of the function: the deferred call runs when the
  rest returns or panics, and does not run when the process exits.\<close>

definition deferring :: "event \<Rightarrow> 'a step \<Rightarrow> 'a step" where
  "deferring e m tr =
     (case m tr of
        (tr', Inl (Exit status)) \<Rightarrow> (tr', Inl (Exit status))
      | (tr', r) \<Rightarrow> (tr' @ [e], r))"

subsection \<open>The environment of a run\<close>

text \<open>
  What the calls main makes outside its file return in one run: an error is a
  \<^typ>\<open>string\<close> on the left of a sum or in an option. \<open>StackPathMap\<close> is
  \<^verbatim>\<open>repConfig.PreloadedRootFS.StackPathMap()\<close>, \<open>walk\<close> the calls
  \<^verbatim>\<open>filepath.WalkDir(repConfig.ExtraRootfsDir, ...)\<close> makes, \<open>executorInitialize\<close>
  the names of the members \<^verbatim>\<open>executorinit.Initialize\<close> returns, \<open>NewRouterErr\<close> and
  \<open>tlsconfigErr\<close> the errors of \<^verbatim>\<open>rata.NewRouter\<close> and of \<^verbatim>\<open>tlsconfig.Build(...).Server(...)\<close>
  in the call of initializeServer with the given flag, and \<open>monitorWait\<close> what
  \<^verbatim>\<open>monitor.Wait()\<close> delivers.
\<close>

record env =
  NewRepConfig :: "string + RepConfig"
  zoneOverride :: string
  Validate :: bool
  initializeMetronErr :: "string option"
  StackPathMap :: "string \<rightharpoonup> string"
  walk :: "(string \<times> string option) list"
  executorInitialize :: "string + string list"
  NewClientWithConfigErr :: "string option"
  LocalIP :: "string + string"
  locketNewClientErr :: "string option"
  NewV4Err :: "string option"
  TotalResourcesErr :: "string option"
  MarshalErr :: "string option"
  NewRouterErr :: "bool \<Rightarrow> string option"
  tlsconfigErr :: "bool \<Rightarrow> string option"
  lib :: stdlib
  monitorWait :: "string option"

subsection \<open>initializeCellPresence, initializeServer, initializeBBSClient\<close>

definition initializeCellPresence :: "env \<Rightarrow> string \<Rightarrow> string \<Rightarrow> ref step" where
  "initializeCellPresence E address repUrl =
     andThen (fatalOn (locketNewClientErr E) ''failed-to-construct-locket-client'') (\<lambda>u.
     andThen (fatalOn (NewV4Err E) ''failed-to-generate-guid'') (\<lambda>u.
     andThen (fatalOn (TotalResourcesErr E) ''failed-to-get-total-resources'') (\<lambda>u.
     andThen (fatalOn (MarshalErr E) ''failed-to-encode-cell-presence'') (\<lambda>u.
     andThen (emit (LogDebug ''presence-payload'')) (\<lambda>u.
     new (NewPresenceRunner address repUrl))))))"

definition initializeServer ::
  "env \<Rightarrow> ref \<Rightarrow> capability \<Rightarrow> ref \<Rightarrow> RepConfig \<Rightarrow> bool \<Rightarrow> ref step"
where
  "initializeServer E auctionCellRep evacuatable requestMetrics repConfig networkAccessible =
     andThen (new (HandlersNew auctionCellRep evacuatable requestMetrics networkAccessible)) (\<lambda>handlers.
     andThen (new (NewRoutes networkAccessible)) (\<lambda>routes.
     andThen (new (NewRouter routes handlers)) (\<lambda>router.
     andThen (fatalOn (NewRouterErr E networkAccessible) ''failed-to-construct-router'') (\<lambda>u.
     let listenAddress =
           (if networkAccessible then ListenAddrSecurable repConfig else ListenAddr repConfig)
     in
     andThen (if \<not> networkAccessible
              then andThen (emit (VerifyCertificate (CertFile repConfig))) (\<lambda>u.
                   andThen (call (verifyCertificate (lib E) (CertFile repConfig))) (\<lambda>err.
                   fatalOn err ''tls-configuration-failed''))
              else result ()) (\<lambda>u.
     andThen (fatalOn (tlsconfigErr E networkAccessible) ''tls-configuration-failed'') (\<lambda>u.
     new (StartTLSServer listenAddress router)))))))"

definition initializeBBSClient :: "env \<Rightarrow> ref step" where
  "initializeBBSClient E =
     andThen (new NewBBSClient) (\<lambda>bbsClient.
     andThen (fatalOn (NewClientWithConfigErr E) ''failed-to-configure-secure-BBS-client'') (\<lambda>u.
     result bbsClient))"

subsection \<open>main\<close>

definition requestTypes :: "string list" where
  "requestTypes =
     [''State'', ''ContainerMetrics'', ''Perform'', ''Reset'', ''UpdateLRPInstance'',
      ''StopLRPInstance'', ''CancelTask'']"

text \<open>Lines 64 to 91: the configuration is read and checked.\<close>

definition configure :: "env \<Rightarrow> RepConfig step" where
  "configure E =
     andThen (case NewRepConfig E of
                Inl err \<Rightarrow> halt (Panic err)
              | Inr c \<Rightarrow> result c) (\<lambda>parsed.
     let repConfig = (if zoneOverride E \<noteq> [] then parsed\<lparr>Zone := zoneOverride E\<rparr> else parsed)
     in
     andThen (if \<not> Validate E then halt (Fatal []) else result ()) (\<lambda>u.
     andThen (if CellID repConfig = []
              then andThen (emit (LogError ''invalid-cell-id'')) (\<lambda>u. halt (Exit 1))
              else result ()) (\<lambda>u.
     andThen (exitOn (initializeMetronErr E) ''failed-to-initialize-metron-client'') (\<lambda>u.
     result repConfig))))"

text \<open>Lines 93 to 116: the map of root filesystems. (The choice of the sidecar's root
  filesystem, lines 94 to 101, only picks a value that is passed on to the executor.)\<close>

definition extraRootfs :: "env \<Rightarrow> (string \<rightharpoonup> string) step" where
  "extraRootfs E =
     (case WalkDir (walk E) (StackPathMap E) of
        (rootFSMap, walkDirErr) \<Rightarrow>
          andThen (case walkDirErr of
                     Some e \<Rightarrow> emit (LogDebug ''missing-extra-rootfs'')
                   | None \<Rightarrow> result ()) (\<lambda>u.
          result rootFSMap))"

text \<open>Lines 125 to 219, after the executor is initialised: the components are built
  and wired, up to the list of members.\<close>

definition build :: "env \<Rightarrow> RepConfig \<Rightarrow> string list \<Rightarrow> string list step" where
  "build E repConfig executorMembers =
     andThen (emit EvacuationContextNew) (\<lambda>u.
     andThen (new (NewSlidingQueue 1)) (\<lambda>queue.
     andThen (new (NewEvacuator EvacuationNotifier)) (\<lambda>evacuator.
     andThen (initializeBBSClient E) (\<lambda>bbsClient.
     andThen (call (repURL repConfig)) (\<lambda>url.
     andThen (call (repAddress (LocalIP E) repConfig)) (\<lambda>address.
     andThen (initializeCellPresence E address url) (\<lambda>cellPresence.
     andThen (new NewContainerAllocator) (\<lambda>batchContainerAllocator.
     andThen (new (NewAuctionCellRep url EvacuationReporter)) (\<lambda>auctionCellRep.
     andThen (new (NewRequestMetricsNotifier requestTypes)) (\<lambda>requestMetrics.
     andThen (initializeServer E auctionCellRep Evacuatable requestMetrics repConfig False) (\<lambda>httpServer.
     andThen (initializeServer E auctionCellRep Evacuatable requestMetrics repConfig True) (\<lambda>httpsServer.
     andThen (new (GeneratorNew EvacuationReporter)) (\<lambda>opGenerator.
     andThen (new NewEvacuationCleanup) (\<lambda>cleanup.
     andThen (new (NewBulker EvacuationNotifier opGenerator queue)) (\<lambda>bulker.
     andThen (new (NewEventConsumer opGenerator queue)) (\<lambda>eventConsumer.
     let members =
           executorMembers @
           [''presence'', ''http_server'', ''https_server'', ''evacuation-cleanup'', ''bulker'',
            ''event-consumer'', ''evacuator'', ''request-metrics-notifier'']
     in
     (if DebugAddress repConfig \<noteq> []
      then andThen (emit (DebugServerRunner (DebugAddress repConfig))) (\<lambda>u.
           result (''debug-server'' # members))
      else result members)))))))))))))))))"

text \<open>Lines 221 to 233: the supervisor runs the members; main waits for it.\<close>

definition serve :: "env \<Rightarrow> string list \<Rightarrow> unit step" where
  "serve E members =
     andThen (emit (Invoke members)) (\<lambda>u.
     andThen (emit (LogInfo ''started'')) (\<lambda>u.
     andThen (exitOn (monitorWait E) ''exited-with-failure'') (\<lambda>u.
     emit (LogInfo ''exited''))))"

definition main :: "env \<Rightarrow> event list \<times> (stop + unit)" where
  "main E =
     andThen (configure E) (\<lambda>repConfig.
     andThen (extraRootfs E) (\<lambda>rootFSMap.
     andThen (emit ExecutorInitialize) (\<lambda>u.
     andThen (case executorInitialize E of
                Inl err \<Rightarrow> andThen (emit (LogError ''failed-to-initialize-executor'')) (\<lambda>u. halt (Exit 1))
              | Inr ms \<Rightarrow> result ms) (\<lambda>executorMembers.
     deferring ExecutorCleanup
       (andThen (build E repConfig executorMembers) (\<lambda>members.
        serve E members)))))) []"

text \<open>The supervisor has been started: from then on the servers and loops run.\<close>

fun isInvoke :: "event \<Rightarrow> bool" where
  "isInvoke (Invoke members) = True"
| "isInvoke e = False"

definition served :: "event list \<Rightarrow> bool" where
  "served tr = list_ex isInvoke tr"

section \<open>Facts about the string functions\<close>





section \<open>Facts about the steps of main\<close>

text \<open>When a step returns: what it appended to the trace and what it returned.\<close>


lemma result_Inr [simp]: "(result a tr = (tr', Inr b)) = (tr' = tr \<and> b = a)"
  by (auto simp: result_def)
lemma halt_Inr [simp]: "(halt s tr = (tr', Inr b)) = False"
  by (auto simp: halt_def)
lemma emit_Inr [simp]: "(emit e tr = (tr', Inr b)) = (tr' = tr @ [e])"
  by (auto simp: emit_def)
lemma new_Inr [simp]: "(new e tr = (tr', Inr b)) = (tr' = tr @ [e] \<and> b = length tr)"
  by (auto simp: new_def)
lemma call_Inr [simp]: "(call r tr = (tr', Inr b)) = (tr' = tr \<and> r = Inr b)"
  by (auto simp: call_def)
lemma andThen_Inr [simp]:
  "(andThen m f tr = (tr', Inr b)) = (\<exists>tr1 a. m tr = (tr1, Inr a) \<and> f a tr1 = (tr', Inr b))"
  by (auto simp: andThen_def split: prod.splits sum.splits)
lemma fatalOn_Inr [simp]: "(fatalOn err action tr = (tr', Inr b)) = (tr' = tr \<and> err = None)"
  by (auto simp: fatalOn_def split: option.splits)
lemma exitOn_Inr [simp]: "(exitOn err action tr = (tr', Inr b)) = (tr' = tr \<and> err = None)"
  by (auto simp: exitOn_def split: option.splits)

lemma initializeCellPresence_Inr:
  "(initializeCellPresence E address url tr = (tr', Inr r)) =
   (locketNewClientErr E = None \<and> NewV4Err E = None \<and> TotalResourcesErr E = None \<and> MarshalErr E = None
    \<and> tr' = tr @ [LogDebug ''presence-payload'', NewPresenceRunner address url] \<and> r = Suc (length tr))"
  by (auto simp: initializeCellPresence_def)

lemma initializeBBSClient_Inr:
  "(initializeBBSClient E tr = (tr', Inr r)) =
   (NewClientWithConfigErr E = None \<and> tr' = tr @ [NewBBSClient] \<and> r = length tr)"
  by (auto simp: initializeBBSClient_def)

lemma initializeServer_Inr:
  "(initializeServer E rep ev rm cfg b tr = (tr', Inr r)) =
   (NewRouterErr E b = None \<and> tlsconfigErr E b = None
    \<and> (\<not> b \<longrightarrow> verifyCertificate (lib E) (CertFile cfg) = Inr None)
    \<and> tr' = tr @ [HandlersNew rep ev rm b, NewRoutes b, NewRouter (Suc (length tr)) (length tr)]
             @ (if b then [] else [VerifyCertificate (CertFile cfg)])
             @ [StartTLSServer (if b then ListenAddrSecurable cfg else ListenAddr cfg) (Suc (Suc (length tr)))]
    \<and> r = length tr + (if b then 3 else 4))"
  by (cases b) (auto simp: initializeServer_def Let_def)


definition wiredEvents :: "RepConfig \<Rightarrow> string \<Rightarrow> string \<Rightarrow> nat \<Rightarrow> event list" where
  "wiredEvents cfg url address n =
     [EvacuationContextNew, NewSlidingQueue 1, NewEvacuator EvacuationNotifier, NewBBSClient,
      LogDebug ''presence-payload'', NewPresenceRunner address url, NewContainerAllocator,
      NewAuctionCellRep url EvacuationReporter, NewRequestMetricsNotifier requestTypes,
      HandlersNew (n + 7) Evacuatable (n + 8) False, NewRoutes False, NewRouter (n + 10) (n + 9),
      VerifyCertificate (CertFile cfg), StartTLSServer (ListenAddr cfg) (n + 11),
      HandlersNew (n + 7) Evacuatable (n + 8) True, NewRoutes True, NewRouter (n + 15) (n + 14),
      StartTLSServer (ListenAddrSecurable cfg) (n + 16),
      GeneratorNew EvacuationReporter, NewEvacuationCleanup,
      NewBulker EvacuationNotifier (n + 18) (n + 1), NewEventConsumer (n + 18) (n + 1)]
     @ (if DebugAddress cfg \<noteq> [] then [DebugServerRunner (DebugAddress cfg)] else [])"

definition memberNames :: "RepConfig \<Rightarrow> string list \<Rightarrow> string list" where
  "memberNames cfg executorMembers =
     (if DebugAddress cfg \<noteq> [] then [''debug-server''] else [])
     @ executorMembers
     @ [''presence'', ''http_server'', ''https_server'', ''evacuation-cleanup'', ''bulker'',
        ''event-consumer'', ''evacuator'', ''request-metrics-notifier'']"

definition buildOK :: "env \<Rightarrow> RepConfig \<Rightarrow> bool" where
  "buildOK E cfg =
     (NewClientWithConfigErr E = None \<and> \<not> isl (repURL cfg) \<and> \<not> isl (repAddress (LocalIP E) cfg)
      \<and> locketNewClientErr E = None \<and> NewV4Err E = None \<and> TotalResourcesErr E = None
      \<and> MarshalErr E = None \<and> NewRouterErr E False = None
      \<and> verifyCertificate (lib E) (CertFile cfg) = Inr None \<and> tlsconfigErr E False = None
      \<and> NewRouterErr E True = None \<and> tlsconfigErr E True = None)"

lemma build_Inr:
  "(build E cfg ems tr = (tr', Inr ms)) =
   (buildOK E cfg
    \<and> tr' = tr @ wiredEvents cfg (projr (repURL cfg)) (projr (repAddress (LocalIP E) cfg)) (length tr)
    \<and> ms = memberNames cfg ems)"
  unfolding build_def buildOK_def
  apply (simp add: initializeCellPresence_Inr initializeBBSClient_Inr initializeServer_Inr Let_def wiredEvents_def memberNames_def
         cong: conj_cong)
  apply (auto simp: numeral_eq_Suc)
  done


definition emitsAtMost :: "nat \<Rightarrow> (event \<Rightarrow> bool) \<Rightarrow> 'a step \<Rightarrow> bool" where
  "emitsAtMost k P m = (\<forall>tr. \<exists>evs. fst (m tr) = tr @ evs \<and> length (filter P evs) \<le> k)"

lemma emitsAtMost_result: "emitsAtMost k P (result a)"
  by (simp add: emitsAtMost_def result_def)
lemma emitsAtMost_halt: "emitsAtMost k P (halt s)"
  by (simp add: emitsAtMost_def halt_def)
lemma emitsAtMost_call: "emitsAtMost k P (call r)"
  by (simp add: emitsAtMost_def call_def)
lemma emitsAtMost_emit: "P e \<longrightarrow> 0 < k \<Longrightarrow> emitsAtMost k P (emit e)"
  by (auto simp: emitsAtMost_def emit_def)
lemma emitsAtMost_new: "P e \<longrightarrow> 0 < k \<Longrightarrow> emitsAtMost k P (new e)"
  by (auto simp: emitsAtMost_def new_def)

lemma emitsAtMost_andThen:
  assumes "emitsAtMost j P m" and "\<And>a. emitsAtMost k P (f a)"
  shows "emitsAtMost (j + k) P (andThen m f)"
  unfolding emitsAtMost_def
proof
  fix tr
  from assms(1) obtain e1 where e1: "fst (m tr) = tr @ e1" "length (filter P e1) \<le> j"
    unfolding emitsAtMost_def by blast
  show "\<exists>evs. fst (andThen m f tr) = tr @ evs \<and> length (filter P evs) \<le> j + k"
  proof (cases "snd (m tr)")
    case (Inl s)
    then have "andThen m f tr = (tr @ e1, Inl s)"
      using e1(1) by (cases "m tr") (simp add: andThen_def)
    then show ?thesis using e1(2) by auto
  next
    case (Inr a)
    from assms(2) [of a] obtain e2 where e2: "fst (f a (tr @ e1)) = (tr @ e1) @ e2" "length (filter P e2) \<le> k"
      unfolding emitsAtMost_def by blast
    from Inr have "andThen m f tr = f a (tr @ e1)"
      using e1(1) by (cases "m tr") (simp add: andThen_def)
    then have "fst (andThen m f tr) = tr @ (e1 @ e2)" using e2(1) by simp
    moreover have "length (filter P (e1 @ e2)) \<le> j + k" using e1(2) e2(2) by simp
    ultimately show ?thesis by blast
  qed
qed

lemma emitsAtMost_andThen0: "emitsAtMost 0 P m \<Longrightarrow> (\<And>a. emitsAtMost k P (f a)) \<Longrightarrow> emitsAtMost k P (andThen m f)"
  using emitsAtMost_andThen [of 0 P m k f] by simp


lemma emitsAtMost_fatalOn: "emitsAtMost k P (fatalOn err action)"
  by (simp add: fatalOn_def emitsAtMost_result emitsAtMost_halt split: option.split)

lemma emitsAtMost_exitOn: "\<not> P (LogError action) \<Longrightarrow> emitsAtMost k P (exitOn err action)"
  unfolding exitOn_def
  by (auto split: option.split intro!: emitsAtMost_result emitsAtMost_andThen0 emitsAtMost_emit emitsAtMost_halt)

lemma emitsAtMost_deferring: "\<not> P e \<Longrightarrow> emitsAtMost k P m \<Longrightarrow> emitsAtMost k P (deferring e m)"
  unfolding emitsAtMost_def deferring_def
proof
  fix tr
  assume ne: "\<not> P e" and m: "\<forall>tr. \<exists>evs. fst (m tr) = tr @ evs \<and> length (filter P evs) \<le> k"
  then obtain evs where evs: "fst (m tr) = tr @ evs" "length (filter P evs) \<le> k" by blast
  then show "\<exists>evs. fst (case m tr of (tr', Inl (Exit status)) \<Rightarrow> (tr', Inl (Exit status)) | (tr', r) \<Rightarrow> (tr' @ [e], r)) = tr @ evs \<and> length (filter P evs) \<le> k"
    using ne by (cases "m tr") (auto split: sum.split stop.split)
qed

lemma emitsAtMost_events: "emitsAtMost k P m \<Longrightarrow> length (filter P (fst (m []))) \<le> k"
  unfolding emitsAtMost_def by (metis append_Nil)

lemmas emitsAtMost_intros = emitsAtMost_result emitsAtMost_halt emitsAtMost_call emitsAtMost_emit emitsAtMost_new
  emitsAtMost_andThen0 emitsAtMost_fatalOn emitsAtMost_exitOn

lemma emitsAtMost_initializeCellPresence: "\<not> P (LogDebug ''presence-payload'') \<Longrightarrow> \<not> P (NewPresenceRunner address url) \<Longrightarrow> emitsAtMost k P (initializeCellPresence E address url)"
  unfolding initializeCellPresence_def by (intro emitsAtMost_intros) auto


subsection \<open>Runs that reach the supervisor\<close>

text \<open>\<open>theConfig\<close> is the configuration main works with once it is parsed,
  \<open>startupOK\<close> says that no call of the start-up fails, and \<open>servedTrace\<close> is the
  trace of such a run.\<close>


definition theConfig :: "env \<Rightarrow> RepConfig" where
  "theConfig E =
     (let parsed = projr (NewRepConfig E)
      in if zoneOverride E \<noteq> [] then parsed\<lparr>Zone := zoneOverride E\<rparr> else parsed)"

definition configureOK :: "env \<Rightarrow> bool" where
  "configureOK E =
     (\<not> isl (NewRepConfig E) \<and> Validate E \<and> CellID (theConfig E) \<noteq> []
      \<and> initializeMetronErr E = None)"

lemma configure_Inr:
  "(configure E tr = (tr', Inr cfg)) = (configureOK E \<and> tr' = tr \<and> cfg = theConfig E)"
  unfolding configure_def configureOK_def theConfig_def
  by (cases "NewRepConfig E") (auto simp: Let_def)

definition walkLog :: "env \<Rightarrow> event list" where
  "walkLog E =
     (case snd (WalkDir (walk E) (StackPathMap E)) of
        Some e \<Rightarrow> [LogDebug ''missing-extra-rootfs'']
      | None \<Rightarrow> [])"

lemma extraRootfs_eq:
  "extraRootfs E tr = (tr @ walkLog E, Inr (fst (WalkDir (walk E) (StackPathMap E))))"
  unfolding extraRootfs_def walkLog_def
  by (cases "WalkDir (walk E) (StackPathMap E)")
     (auto simp: andThen_def emit_def result_def split: option.split)

lemma andThen_Inl: "m tr = (tr1, Inl s) \<Longrightarrow> andThen m f tr = (tr1, Inl s)"
  by (simp add: andThen_def)

lemma andThen_Inr_eq: "m tr = (tr1, Inr a) \<Longrightarrow> andThen m f tr = f a tr1"
  by (simp add: andThen_def)

lemma emitsAtMost_configure: "\<forall>a. \<not> P (LogError a) \<Longrightarrow> emitsAtMost k P (configure E)"
  unfolding configure_def Let_def
  by (intro emitsAtMost_intros; auto split: sum.split intro!: emitsAtMost_intros)


lemma emitsAtMost_initializeBBSClient:
  "\<not> P NewBBSClient \<Longrightarrow> emitsAtMost k P (initializeBBSClient E)"
  unfolding initializeBBSClient_def by (intro emitsAtMost_intros) auto

lemma emitsAtMost_initializeServer:
  "\<not> P (HandlersNew r c m b) \<Longrightarrow> \<not> P (NewRoutes b) \<Longrightarrow> \<forall>x y. \<not> P (NewRouter x y)
   \<Longrightarrow> \<forall>f. \<not> P (VerifyCertificate f) \<Longrightarrow> \<forall>a x. \<not> P (StartTLSServer a x)
   \<Longrightarrow> emitsAtMost k P (initializeServer E r c m cfg b)"
  unfolding initializeServer_def Let_def
  by (cases b) (simp_all, (intro emitsAtMost_intros; auto)+)

lemma not_isInvoke_simps:
  "\<not> isInvoke (LogError a)" "\<not> isInvoke (LogDebug a)" "\<not> isInvoke NewBBSClient"
  by simp_all

lemma build_no_Invoke: "emitsAtMost 0 isInvoke (build E cfg ems)"
  unfolding build_def Let_def
  by (intro emitsAtMost_intros emitsAtMost_initializeBBSClient emitsAtMost_initializeCellPresence
        emitsAtMost_initializeServer; auto intro!: emitsAtMost_intros)

definition startupOK :: "env \<Rightarrow> bool" where
  "startupOK E = (configureOK E \<and> \<not> isl (executorInitialize E) \<and> buildOK E (theConfig E))"

definition servedTrace :: "env \<Rightarrow> event list" where
  "servedTrace E =
     walkLog E @ [ExecutorInitialize]
     @ wiredEvents (theConfig E) (projr (repURL (theConfig E)))
         (projr (repAddress (LocalIP E) (theConfig E))) (Suc (length (walkLog E)))
     @ [Invoke (memberNames (theConfig E) (projr (executorInitialize E))), LogInfo ''started'']
     @ (case monitorWait E of
          Some e \<Rightarrow> [LogError ''exited-with-failure'']
        | None \<Rightarrow> [LogInfo ''exited'', ExecutorCleanup])"

lemma main_startupOK:
  assumes "startupOK E"
  shows "main E = (servedTrace E, case monitorWait E of Some e \<Rightarrow> Inl (Exit 1) | None \<Rightarrow> Inr ())"
proof -
  from assms have c: "configure E [] = ([], Inr (theConfig E))"
    by (simp add: configure_Inr startupOK_def)
  from assms obtain ems where ems: "executorInitialize E = Inr ems"
    by (cases "executorInitialize E") (auto simp: startupOK_def)
  from assms have b: "\<And>tr. build E (theConfig E) ems tr =
      (tr @ wiredEvents (theConfig E) (projr (repURL (theConfig E)))
         (projr (repAddress (LocalIP E) (theConfig E))) (length tr), Inr (memberNames (theConfig E) ems))"
    by (simp add: build_Inr startupOK_def)
  show ?thesis
    unfolding main_def servedTrace_def
    by (simp add: andThen_def c extraRootfs_eq emit_def ems result_def b deferring_def serve_def
          exitOn_def halt_def split: option.split)
qed

lemma served_servedTrace: "served (servedTrace E)"
  by (simp add: served_def servedTrace_def)

lemma no_Invoke_appended:
  "emitsAtMost 0 isInvoke m \<Longrightarrow> \<not> list_ex isInvoke tr \<Longrightarrow> \<not> list_ex isInvoke (fst (m tr))"
  unfolding emitsAtMost_def
proof -
  assume a: "\<forall>tr. \<exists>evs. fst (m tr) = tr @ evs \<and> length (filter isInvoke evs) \<le> 0"
    and n: "\<not> list_ex isInvoke tr"
  from a obtain evs where "fst (m tr) = tr @ evs" "filter isInvoke evs = []" by auto
  with n show ?thesis by (auto simp: list_ex_iff filter_empty_conv)
qed

lemma Inl_if_not_Inr: "(\<And>tr' a. m tr \<noteq> (tr', Inr a)) \<Longrightarrow> \<exists>tr' s. m tr = (tr', Inl s)"
  by (cases "m tr"; cases "snd (m tr)") auto

lemma main_not_startupOK:
  assumes "\<not> startupOK E"
  shows "\<not> served (fst (main E)) \<and> isl (snd (main E))"
proof (cases "configureOK E")
  case False
  then obtain tr1 s where c: "configure E [] = (tr1, Inl s)"
    using Inl_if_not_Inr [of "configure E" "[]"] by (auto simp: configure_Inr)
  have "\<not> list_ex isInvoke (fst (configure E []))"
    by (rule no_Invoke_appended [OF emitsAtMost_configure]) simp_all
  with c show ?thesis
    unfolding main_def by (simp add: andThen_Inl served_def)
next
  case True
  then have c: "configure E [] = ([], Inr (theConfig E))"
    by (simp add: configure_Inr)
  show ?thesis
  proof (cases "executorInitialize E")
    case (Inl err)
    then show ?thesis
      unfolding main_def
      by (simp add: andThen_def c extraRootfs_eq emit_def halt_def served_def walkLog_def
            split: option.split)
  next
    case (Inr ems)
    let ?tr0 = "walkLog E @ [ExecutorInitialize]"
    from assms True Inr have "\<not> buildOK E (theConfig E)"
      by (simp add: startupOK_def)
    then obtain tr1 s where b: "build E (theConfig E) ems ?tr0 = (tr1, Inl s)"
      using Inl_if_not_Inr [of "build E (theConfig E) ems" ?tr0] by (auto simp: build_Inr)
    have "\<not> list_ex isInvoke (fst (build E (theConfig E) ems ?tr0))"
      by (rule no_Invoke_appended [OF build_no_Invoke]) (simp add: walkLog_def split: option.split)
    with b have n: "\<not> list_ex isInvoke tr1" by simp
    have "main E = deferring ExecutorCleanup (andThen (build E (theConfig E) ems) (serve E)) ?tr0"
      unfolding main_def
      by (simp add: andThen_def c extraRootfs_eq emit_def Inr result_def)
    also have "\<dots> = (case s of Exit st \<Rightarrow> (tr1, Inl s) | _ \<Rightarrow> (tr1 @ [ExecutorCleanup], Inl s))"
      using andThen_Inl [of "build E (theConfig E) ems" ?tr0 tr1 s "serve E", OF b]
      by (simp add: deferring_def split: stop.split)
    finally show ?thesis using n
      by (auto simp: served_def split: stop.split)
  qed
qed

lemma served_iff: "served (fst (main E)) = startupOK E"
  using main_not_startupOK [of E] main_startupOK [of E] served_servedTrace [of E] by auto


subsection \<open>A concrete run\<close>

text \<open>
  A small environment for concrete runs. In \<open>toyLib\<close> a file is a sequence of one-byte
  PEM blocks: the block \<open>C\<close> holds one certificate for 127.0.0.1, the block \<open>N\<close> holds one
  certificate for 10.0.0.7, and the block \<open>E\<close> has an empty body.
\<close>

definition toyLib :: stdlib where
  "toyLib =
     \<lparr> ReadFile = (\<lambda>f. if f = ''rep.crt'' then Inr ''C''
                       else if f = ''empty.crt'' then Inr ''EE''
                       else if f = ''other.crt'' then Inr ''NC''
                       else if f = ''junk.crt'' then Inr ''C?''
                       else Inl ''open: no such file or directory''),
       TrimSpace = (\<lambda>s. s),
       pemBlock = (\<lambda>d. case d of
                          [] \<Rightarrow> None
                        | c # r \<Rightarrow> if c = CHR ''C'' then Some (''c'', 0)
                                   else if c = CHR ''N'' then Some (''n'', 0)
                                   else if c = CHR ''E'' then Some ([], 0)
                                   else None),
       ParseCertificates =
         (\<lambda>der. Inr (map (\<lambda>c. \<lparr>IPAddresses = [if c = CHR ''c'' then [127, 0, 0, 1] else [10, 0, 0, 7]]\<rparr>) der)) \<rparr>"

definition sampleConfig :: RepConfig where
  "sampleConfig =
     \<lparr> CellID = ''cell_1'', Zone = ''z1'', ListenAddr = ''0.0.0.0:1800'',
       ListenAddrSecurable = ''0.0.0.0:1801'', AdvertiseDomain = ''cell.service.cf.internal'',
       CertFile = ''rep.crt'', ExtraRootfsDir = ''/rootfs'', DebugAddress = [] \<rparr>"

definition sampleEnv :: env where
  "sampleEnv =
     \<lparr> NewRepConfig = Inr sampleConfig, zoneOverride = [], Validate = True,
       initializeMetronErr = None, StackPathMap = Map.empty,
       walk = [(''/rootfs'', None), (''/rootfs/x.tar'', None)],
       executorInitialize = Inr [''garden''], NewClientWithConfigErr = None,
       LocalIP = Inr ''10.0.0.5'', locketNewClientErr = None, NewV4Err = None,
       TotalResourcesErr = None, MarshalErr = None, NewRouterErr = (\<lambda>b. None),
       tlsconfigErr = (\<lambda>b. None), lib = toyLib, monitorWait = None \<rparr>"

lemma verifyCertificate_toy: "verifyCertificate toyLib ''rep.crt'' = Inr None"
  by (simp add: verifyCertificate_def toyLib_def decodeBlocks.simps Decode_def IP_Equal_def
        loopback_def v4InV6Prefix_def)

lemma theConfig_sample: "theConfig sampleEnv = sampleConfig"
  by (simp add: theConfig_def sampleEnv_def)

lemma configureOK_sample: "configureOK sampleEnv"
  by (simp add: configureOK_def theConfig_sample) (simp add: sampleEnv_def sampleConfig_def)

lemma repURL_sample: "repURL sampleConfig = Inr ''https://cell-1.cell.service.cf.internal:1801''"
  by (simp add: repURL_def sampleConfig_def index1_def repHost_def)

lemma repAddress_sample: "repAddress (Inr ''10.0.0.5'') sampleConfig = Inr ''http://10.0.0.5:1800''"
  by (simp add: repAddress_def sampleConfig_def index1_def)

lemma startupOK_sample: "startupOK sampleEnv"
  unfolding startupOK_def buildOK_def
  by (simp add: configureOK_sample theConfig_sample repURL_sample)
     (simp add: sampleEnv_def repAddress_sample, simp add: sampleConfig_def verifyCertificate_toy)


subsection \<open>What every run passes to the constructors\<close>

text \<open>The arguments that main.go writes out at the constructor calls: the depth of the
  queue, the view of the evacuation state, the request types.\<close>

fun asWritten :: "event \<Rightarrow> bool" where
  "asWritten (NewSlidingQueue n) = (n = 1)"
| "asWritten (NewEvacuator c) = (c = EvacuationNotifier)"
| "asWritten (NewAuctionCellRep url c) = (c = EvacuationReporter)"
| "asWritten (NewRequestMetricsNotifier ts) = (ts = requestTypes)"
| "asWritten (HandlersNew r c m b) = (c = Evacuatable)"
| "asWritten (GeneratorNew c) = (c = EvacuationReporter)"
| "asWritten (NewBulker c g q) = (c = EvacuationNotifier)"
| "asWritten e = True"

lemma build_asWritten: "emitsAtMost 0 (\<lambda>e. \<not> asWritten e) (build E cfg ems)"
  unfolding build_def Let_def
  by (intro emitsAtMost_intros emitsAtMost_initializeBBSClient emitsAtMost_initializeCellPresence
        emitsAtMost_initializeServer; auto intro!: emitsAtMost_intros)

lemma emitsAtMost_extraRootfs: "\<forall>a. \<not> P (LogDebug a) \<Longrightarrow> emitsAtMost k P (extraRootfs E)"
  by (simp add: emitsAtMost_def extraRootfs_eq walkLog_def split: option.split)

lemma emitsAtMost_serve:
  "\<forall>ms. \<not> P (Invoke ms) \<Longrightarrow> \<forall>a. \<not> P (LogInfo a) \<Longrightarrow> \<forall>a. \<not> P (LogError a)
   \<Longrightarrow> emitsAtMost k P (serve E members)"
  unfolding serve_def by (intro emitsAtMost_intros; auto)

lemma main_asWritten: "list_all asWritten (fst (main E))"
proof -
  let ?P = "\<lambda>e. \<not> asWritten e"
  have "emitsAtMost 0 ?P
     (andThen (configure E) (\<lambda>repConfig.
      andThen (extraRootfs E) (\<lambda>rootFSMap.
      andThen (emit ExecutorInitialize) (\<lambda>u.
      andThen (case executorInitialize E of
                 Inl err \<Rightarrow> andThen (emit (LogError ''failed-to-initialize-executor'')) (\<lambda>u. halt (Exit 1))
               | Inr ms \<Rightarrow> result ms) (\<lambda>executorMembers.
      deferring ExecutorCleanup
        (andThen (build E repConfig executorMembers) (\<lambda>members. serve E members)))))))"
    by (intro emitsAtMost_intros emitsAtMost_configure emitsAtMost_extraRootfs
          emitsAtMost_deferring build_asWritten emitsAtMost_serve;
        auto split: sum.split intro!: emitsAtMost_intros)
  then have "length (filter ?P (fst (main E))) \<le> 0"
    unfolding main_def by (rule emitsAtMost_events)
  then show ?thesis
    by (simp add: list_all_iff filter_empty_conv)
qed

section \<open>The claims\<close>

text \<open>
  C7. The request types that main registers for request metrics are exactly the seven
  operations of the auction surface: State, ContainerMetrics, Perform, Reset,
  UpdateLRPInstance, StopLRPInstance and CancelTask, each once. No run registers any
  other list, and a run that reaches the supervisor has registered this one.
\<close>

theorem requestTypes_exactly_seven:
  "set requestTypes =
     {''State'', ''ContainerMetrics'', ''Perform'', ''Reset'', ''UpdateLRPInstance'',
      ''StopLRPInstance'', ''CancelTask''}
   \<and> distinct requestTypes \<and> length requestTypes = 7
   \<and> (NewRequestMetricsNotifier types \<in> set (fst (main E)) \<longrightarrow> types = requestTypes)
   \<and> (served (fst (main E)) \<longrightarrow> NewRequestMetricsNotifier requestTypes \<in> set (fst (main E)))"
proof (intro conjI impI)
  show "set requestTypes =
     {''State'', ''ContainerMetrics'', ''Perform'', ''Reset'', ''UpdateLRPInstance'',
      ''StopLRPInstance'', ''CancelTask''}"
    by (simp add: requestTypes_def insert_commute)
  show "distinct requestTypes" by (simp add: requestTypes_def)
  show "length requestTypes = 7" by (simp add: requestTypes_def)
next
  assume "NewRequestMetricsNotifier types \<in> set (fst (main E))"
  with main_asWritten [of E] have "asWritten (NewRequestMetricsNotifier types)"
    by (auto simp: list_all_iff)
  then show "types = requestTypes" by simp
next
  assume "served (fst (main E))"
  then have "fst (main E) = servedTrace E"
    by (simp add: served_iff main_startupOK)
  then show "NewRequestMetricsNotifier requestTypes \<in> set (fst (main E))"
    by (simp add: servedTrace_def wiredEvents_def)
qed

theorem requestTypes_exactly_seven_witness:
  "served (fst (main sampleEnv))
   \<and> NewRequestMetricsNotifier
        [''State'', ''ContainerMetrics'', ''Perform'', ''Reset'', ''UpdateLRPInstance'',
         ''StopLRPInstance'', ''CancelTask''] \<in> set (fst (main sampleEnv))"
proof -
  have s: "served (fst (main sampleEnv))"
    by (simp add: served_iff startupOK_sample)
  with requestTypes_exactly_seven [of requestTypes sampleEnv] show ?thesis
    by (simp add: requestTypes_def)
qed

text \<open>
  C4. In every run in which the configuration file does not parse, the executor
  configuration does not validate, or the cell id is empty, main stops (with a panic, a
  fatal log or exit status 1) and the supervisor is never started, so no server serves.
\<close>

theorem startup_error_stops_before_serving:
  assumes "isl (NewRepConfig E) \<or> \<not> Validate E \<or> CellID (theConfig E) = []"
  shows "snd (main E) =
           Inl (if isl (NewRepConfig E) then Panic (projl (NewRepConfig E))
                else if \<not> Validate E then Fatal [] else Exit 1)
         \<and> \<not> served (fst (main E))"
proof -
  from assms have "\<not> startupOK E"
    by (auto simp: startupOK_def configureOK_def)
  then have n: "\<not> served (fst (main E))"
    using main_not_startupOK by blast
  have "snd (configure E []) =
          Inl (if isl (NewRepConfig E) then Panic (projl (NewRepConfig E))
               else if \<not> Validate E then Fatal [] else Exit 1)"
    using assms unfolding configure_def theConfig_def
    by (cases "NewRepConfig E")
       (auto simp: andThen_def halt_def result_def emit_def Let_def)
  then have "snd (main E) =
          Inl (if isl (NewRepConfig E) then Panic (projl (NewRepConfig E))
               else if \<not> Validate E then Fatal [] else Exit 1)"
    unfolding main_def by (cases "configure E []") (simp add: andThen_def)
  with n show ?thesis by simp
qed

theorem startup_error_stops_before_serving_witness:
  "main (sampleEnv\<lparr>NewRepConfig := Inl ''unexpected end of JSON input''\<rparr>)
     = ([], Inl (Panic ''unexpected end of JSON input''))
   \<and> snd (main (sampleEnv\<lparr>Validate := False\<rparr>)) = Inl (Fatal [])
   \<and> \<not> served (fst (main (sampleEnv\<lparr>Validate := False\<rparr>)))
   \<and> snd (main (sampleEnv\<lparr>NewRepConfig := Inr (sampleConfig\<lparr>CellID := []\<rparr>)\<rparr>)) = Inl (Exit 1)
   \<and> \<not> served (fst (main (sampleEnv\<lparr>NewRepConfig := Inr (sampleConfig\<lparr>CellID := []\<rparr>)\<rparr>)))"
proof -
  have a: "main (sampleEnv\<lparr>NewRepConfig := Inl ''unexpected end of JSON input''\<rparr>)
     = ([], Inl (Panic ''unexpected end of JSON input''))"
    by (simp add: main_def configure_def andThen_def halt_def)
  show ?thesis
    using a
      startup_error_stops_before_serving [of "sampleEnv\<lparr>Validate := False\<rparr>"]
      startup_error_stops_before_serving [of "sampleEnv\<lparr>NewRepConfig := Inr (sampleConfig\<lparr>CellID := []\<rparr>)\<rparr>"]
    by (simp add: theConfig_def) (simp add: sampleEnv_def)
qed

subsection \<open>C6: one generator and one queue\<close>

fun bulkerWiring :: "event \<Rightarrow> (ref \<times> ref) option" where
  "bulkerWiring (NewBulker c opGenerator queue) = Some (opGenerator, queue)"
| "bulkerWiring e = None"

fun consumerWiring :: "event \<Rightarrow> (ref \<times> ref) option" where
  "consumerWiring (NewEventConsumer opGenerator queue) = Some (opGenerator, queue)"
| "consumerWiring e = None"

fun isGenerator :: "event \<Rightarrow> bool" where
  "isGenerator (GeneratorNew c) = True"
| "isGenerator e = False"

fun isQueue :: "event \<Rightarrow> bool" where
  "isQueue (NewSlidingQueue n) = True"
| "isQueue e = False"

text \<open>
  C6. In every run that reaches the supervisor, exactly one Bulker and one EventConsumer
  have been built, both with the same references \<open>g\<close> and \<open>q\<close>; \<open>g\<close> is the one
  OperationGenerator the run built (the only call of \<^verbatim>\<open>generator.New\<close>) and \<open>q\<close> the
  one queue it built (the only call of \<^verbatim>\<open>operationq.NewSlidingQueue\<close>).
\<close>

theorem bulker_and_consumer_share_generator_and_queue:
  assumes "served (fst (main E))"
  shows "\<exists>g q. List.map_filter bulkerWiring (fst (main E)) = [(g, q)]
              \<and> List.map_filter consumerWiring (fst (main E)) = [(g, q)]
              \<and> g < length (fst (main E)) \<and> q < length (fst (main E))
              \<and> filter isGenerator (fst (main E)) = [fst (main E) ! g]
              \<and> filter isQueue (fst (main E)) = [fst (main E) ! q]"
proof -
  from assms have ok: "startupOK E" by (simp add: served_iff)
  then have tr: "fst (main E) = servedTrace E" by (simp add: main_startupOK)
  show ?thesis
    unfolding tr servedTrace_def wiredEvents_def walkLog_def
    by (simp add: List.map_filter_simps split: option.split)
qed

theorem bulker_and_consumer_share_generator_and_queue_witness:
  "served (fst (main sampleEnv))
   \<and> List.map_filter bulkerWiring (fst (main sampleEnv)) = [(19, 2)]
   \<and> List.map_filter consumerWiring (fst (main sampleEnv)) = [(19, 2)]
   \<and> fst (main sampleEnv) ! 19 = GeneratorNew EvacuationReporter
   \<and> fst (main sampleEnv) ! 2 = NewSlidingQueue 1"
proof -
  have s: "served (fst (main sampleEnv))"
    by (simp add: served_iff startupOK_sample)
  have tr: "fst (main sampleEnv) = servedTrace sampleEnv"
    by (simp add: main_startupOK startupOK_sample)
  have w: "walkLog sampleEnv = []"
    by (simp add: walkLog_def sampleEnv_def walkFn_def isTar_def Ext_def foldByte_def)
  from bulker_and_consumer_share_generator_and_queue [OF s]
  obtain g q where gq: "List.map_filter bulkerWiring (fst (main sampleEnv)) = [(g, q)]"
    "List.map_filter consumerWiring (fst (main sampleEnv)) = [(g, q)]" by blast
  have b: "List.map_filter bulkerWiring (fst (main sampleEnv)) = [(19, 2)]"
    unfolding tr servedTrace_def wiredEvents_def w
    by (simp add: List.map_filter_simps split: option.split)
  with gq have "g = 19" "q = 2" by simp_all
  with gq b s show ?thesis
    unfolding tr servedTrace_def wiredEvents_def w by simp
qed

subsection \<open>C2: who receives which view of the evacuation state\<close>

datatype consumer =
  TheEvacuator | TheAuctionCellRep | RequestHandlers bool | TheOperationGenerator | TheBulker

text \<open>The view of the evacuation state that a constructor call hands to the component
  it builds (\<open>RequestHandlers b\<close> are the handlers of the server built with
  \<^verbatim>\<open>networkAccessible = b\<close>).\<close>

fun receives :: "event \<Rightarrow> (consumer \<times> capability) option" where
  "receives (NewEvacuator c) = Some (TheEvacuator, c)"
| "receives (NewAuctionCellRep url c) = Some (TheAuctionCellRep, c)"
| "receives (HandlersNew r c m b) = Some (RequestHandlers b, c)"
| "receives (GeneratorNew c) = Some (TheOperationGenerator, c)"
| "receives (NewBulker c g q) = Some (TheBulker, c)"
| "receives e = None"

definition handedOut :: "event list \<Rightarrow> (consumer \<times> capability) list" where
  "handedOut tr = List.map_filter receives tr"

text \<open>The claim, for a given reading \<open>writes\<close> of which views can flip the flag: the
  Evacuator holds such a view and no other consumer does.\<close>

definition onlyEvacuatorWrites ::
  "(capability \<Rightarrow> bool) \<Rightarrow> (consumer \<times> capability) list \<Rightarrow> bool"
where
  "onlyEvacuatorWrites writes hs =
     (list_ex (\<lambda>h. fst h = TheEvacuator \<and> writes (snd h)) hs
      \<and> list_all (\<lambda>h. fst h = TheEvacuator \<or> \<not> writes (snd h)) hs)"

text \<open>Two readings: the write side is the notifier (as the spec's design notes name it),
  or it is the value of type \<^verbatim>\<open>Evacuatable\<close>.\<close>

definition notifierWrites :: "capability \<Rightarrow> bool" where
  "notifierWrites c = (c = EvacuationNotifier)"

definition evacuatableWrites :: "capability \<Rightarrow> bool" where
  "evacuatableWrites c = (c = Evacuatable)"

definition mainWiring :: "(consumer \<times> capability) list" where
  "mainWiring =
     [(TheEvacuator, EvacuationNotifier), (TheAuctionCellRep, EvacuationReporter),
      (RequestHandlers False, Evacuatable), (RequestHandlers True, Evacuatable),
      (TheOperationGenerator, EvacuationReporter), (TheBulker, EvacuationNotifier)]"

lemma handedOut_served: "startupOK E \<Longrightarrow> handedOut (fst (main E)) = mainWiring"
  unfolding handedOut_def mainWiring_def
  by (simp add: main_startupOK servedTrace_def wiredEvents_def walkLog_def
        List.map_filter_simps split: option.split)

lemma mainWiring_not_exclusive: "\<not> onlyEvacuatorWrites writes mainWiring"
  by (auto simp: onlyEvacuatorWrites_def mainWiring_def)

lemma receives_asWritten: "asWritten e \<Longrightarrow> receives e = Some h \<Longrightarrow> h \<in> set mainWiring"
  by (cases e) (auto simp: mainWiring_def)

lemma handedOut_subset: "list_all asWritten tr \<Longrightarrow> set (handedOut tr) \<subseteq> set mainWiring"
  using receives_asWritten
  by (fastforce simp: handedOut_def List.map_filter_def list_all_iff)

text \<open>
  C2 as stated fails: in the run \<open>sampleEnv\<close> the Evacuator is not the only holder of a
  write capability, whether the write side is the notifier (the Bulker holds it too) or
  the \<^verbatim>\<open>Evacuatable\<close> (the request handlers hold it and the Evacuator does not).
\<close>

theorem only_evacuator_writes_counterexample:
  "\<not> onlyEvacuatorWrites notifierWrites (handedOut (fst (main sampleEnv)))
   \<and> \<not> onlyEvacuatorWrites evacuatableWrites (handedOut (fst (main sampleEnv)))
   \<and> (TheBulker, EvacuationNotifier) \<in> set (handedOut (fst (main sampleEnv)))
   \<and> (TheEvacuator, EvacuationNotifier) \<in> set (handedOut (fst (main sampleEnv)))"
  by (simp add: handedOut_served startupOK_sample mainWiring_not_exclusive)
     (simp add: mainWiring_def)

text \<open>
  C2 amended. In every run, each consumer receives at most the one view that main.go
  writes at its constructor: the Evacuator and the Bulker the notifier, the
  OperationGenerator and the AuctionCellRep the reporter, the handlers of both servers
  the \<^verbatim>\<open>Evacuatable\<close>; a run that reaches the supervisor has handed out exactly these
  six, so that under no reading of which views write is the Evacuator the only writer.
\<close>

theorem evacuation_views_as_wired:
  "set (handedOut (fst (main E))) \<subseteq> set mainWiring
   \<and> (served (fst (main E)) \<longrightarrow>
        handedOut (fst (main E)) = mainWiring
        \<and> \<not> onlyEvacuatorWrites writes (handedOut (fst (main E))))"
  using handedOut_subset [OF main_asWritten, of E]
  by (simp add: served_iff handedOut_served mainWiring_not_exclusive)

theorem evacuation_views_as_wired_witness:
  "served (fst (main sampleEnv))
   \<and> handedOut (fst (main sampleEnv)) =
       [(TheEvacuator, EvacuationNotifier), (TheAuctionCellRep, EvacuationReporter),
        (RequestHandlers False, Evacuatable), (RequestHandlers True, Evacuatable),
        (TheOperationGenerator, EvacuationReporter), (TheBulker, EvacuationNotifier)]"
proof -
  have s: "served (fst (main sampleEnv))"
    by (simp add: served_iff startupOK_sample)
  with evacuation_views_as_wired [of sampleEnv] show ?thesis
    by (simp add: mainWiring_def)
qed

subsection \<open>C9: listen addresses without a colon\<close>






subsection \<open>C8: verifyCertificate\<close>

text \<open>The bodies of the PEM blocks that make up an input, one after the other;
  \<open>None\<close> when some part of the input is not a PEM block.\<close>

function pemBodies :: "stdlib \<Rightarrow> string \<Rightarrow> string list option" where
  "pemBodies L data =
     (case Decode L data of
        (None, rest) \<Rightarrow> None
      | (Some body, rest) \<Rightarrow>
          (if rest = [] then Some [body]
           else map_option (\<lambda>bodies. body # bodies) (pemBodies L rest)))"
  by pat_completeness auto
termination
  by (relation "measure (\<lambda>(L, data). length data)")
     (auto dest: Decode_shorter [OF sym])

declare pemBodies.simps [simp del]

lemma decodeBlocks_pemBodies:
  "decodeBlocks L blocks data =
     map_option (\<lambda>bodies. blocks @ concat bodies) (pemBodies L data)"
proof (induction L blocks data rule: decodeBlocks.induct)
  case (1 L blocks certBytes)
  show ?case
  proof (cases "Decode L certBytes")
    case (Pair b rest)
    show ?thesis
    proof (cases b)
      case None
      with Pair show ?thesis
        by (simp add: decodeBlocks.simps [of L blocks certBytes] pemBodies.simps [of L certBytes])
    next
      case (Some body)
      show ?thesis
      proof (cases "rest = []")
        case True
        with Pair Some show ?thesis
          by (simp add: decodeBlocks.simps [of L blocks certBytes] pemBodies.simps [of L certBytes])
      next
        case False
        with Pair Some "1.IH" show ?thesis
          by (simp add: decodeBlocks.simps [of L blocks certBytes] pemBodies.simps [of L certBytes]
                option.map_comp comp_def)
      qed
    qed
  qed
qed

lemma IP_Equal_loopback: "IP_Equal ip loopback = (ip = [127, 0, 0, 1] \<or> ip = loopback)"
proof -
  have l: "length loopback = 16" "take 12 loopback = v4InV6Prefix" "drop 12 loopback = [127, 0, 0, 1]"
    by (simp_all add: loopback_def v4InV6Prefix_def)
  show ?thesis
    unfolding IP_Equal_def using l by auto
qed


text \<open>
  C8. verifyCertificate always ends, and how it ends is determined as follows. It
  returns \<^verbatim>\<open>nil\<close> iff the file is read, all of its trimmed contents decode as PEM
  blocks, their bytes parse to at least one certificate and the IP addresses of the
  first one include 127.0.0.1 (in the 4 byte or the 16 byte form). It returns an error
  when the file cannot be read, when some part does not decode, or when the bytes do not
  parse. It panics, with an index out of range at \<^verbatim>\<open>certs[0]\<close>, exactly when the
  bytes parse to no certificate at all; that is what happens when every block has an
  empty body and the parser accepts the empty input with no certificate.
\<close>

theorem verifyCertificate_total_unless_no_certificate:
  "((verifyCertificate L file = Inr None) =
      (\<exists>certBytes bodies cert others.
          ReadFile L file = Inr certBytes
        \<and> pemBodies L (TrimSpace L certBytes) = Some bodies
        \<and> ParseCertificates L (concat bodies) = Inr (cert # others)
        \<and> ([127, 0, 0, 1] \<in> set (IPAddresses cert) \<or> loopback \<in> set (IPAddresses cert))))
   \<and> (\<forall>err. ReadFile L file = Inl err \<longrightarrow> verifyCertificate L file = Inr (Some err))
   \<and> (\<forall>certBytes. ReadFile L file = Inr certBytes
          \<and> pemBodies L (TrimSpace L certBytes) = None \<longrightarrow>
        verifyCertificate L file = Inr (Some ''failed parsing cert''))
   \<and> (\<forall>certBytes bodies err. ReadFile L file = Inr certBytes
          \<and> pemBodies L (TrimSpace L certBytes) = Some bodies
          \<and> ParseCertificates L (concat bodies) = Inl err \<longrightarrow>
        verifyCertificate L file = Inr (Some (''failed parsing cert: '' @ err)))
   \<and> (isl (verifyCertificate L file) =
        (\<exists>certBytes bodies. ReadFile L file = Inr certBytes
          \<and> pemBodies L (TrimSpace L certBytes) = Some bodies
          \<and> ParseCertificates L (concat bodies) = Inr []))
   \<and> (\<forall>certBytes bodies. ReadFile L file = Inr certBytes
          \<and> pemBodies L (TrimSpace L certBytes) = Some bodies
          \<and> (\<forall>body \<in> set bodies. body = [])
          \<and> ParseCertificates L [] = Inr [] \<longrightarrow>
        verifyCertificate L file = Inl (indexOutOfRange 0 0))"
proof -
  have e: "\<And>bodies::string list. (\<forall>body \<in> set bodies. body = []) \<Longrightarrow> concat bodies = []"
    by simp
  have ex: "\<And>ips. list_ex (\<lambda>ip. IP_Equal ip loopback) ips
              = ([127, 0, 0, 1] \<in> set ips \<or> loopback \<in> set ips)"
    by (auto simp: list_ex_iff IP_Equal_loopback)
  show ?thesis
    unfolding verifyCertificate_def decodeBlocks_pemBodies ex
    by (auto simp: e split: sum.splits option.splits list.splits)
qed

theorem verifyCertificate_total_unless_no_certificate_witness:
  "verifyCertificate toyLib ''rep.crt'' = Inr None
   \<and> verifyCertificate toyLib ''missing.crt'' = Inr (Some ''open: no such file or directory'')
   \<and> verifyCertificate toyLib ''junk.crt'' = Inr (Some ''failed parsing cert'')
   \<and> pemBodies toyLib ''EE'' = Some [[], []]
   \<and> verifyCertificate toyLib ''empty.crt'' = Inl (Panic ''runtime error: index out of range'')"
proof -
  have r: "ReadFile toyLib ''rep.crt'' = Inr ''C''" "ReadFile toyLib ''empty.crt'' = Inr ''EE''"
    "ReadFile toyLib ''junk.crt'' = Inr ''C?''"
    "ReadFile toyLib ''missing.crt'' = Inl ''open: no such file or directory''"
    "TrimSpace toyLib = (\<lambda>s. s)" "ParseCertificates toyLib [] = Inr []"
    "ParseCertificates toyLib ''c'' = Inr [\<lparr>IPAddresses = [[127, 0, 0, 1]]\<rparr>]"
    by (simp_all add: toyLib_def)
  have b: "pemBodies toyLib ''C'' = Some [''c'']" "pemBodies toyLib ''EE'' = Some [[], []]"
    "pemBodies toyLib ''C?'' = None"
    by (simp_all add: pemBodies.simps Decode_def toyLib_def)
  show ?thesis
    using verifyCertificate_total_unless_no_certificate [of toyLib "''rep.crt''"]
      verifyCertificate_total_unless_no_certificate [of toyLib "''missing.crt''"]
      verifyCertificate_total_unless_no_certificate [of toyLib "''junk.crt''"]
      verifyCertificate_total_unless_no_certificate [of toyLib "''empty.crt''"]
    by (simp add: r b indexOutOfRange_def)
qed

subsection \<open>C10: the extra root filesystems\<close>

lemma of_char_is: "of_char d = (n::nat) \<Longrightarrow> (of_char c = n) = (c = d)"
  by (auto simp: of_char_eq_iff)

lemma of_char_letters:
  "(of_char c = (46::nat)) = (c = CHR ''.'')"
  "(of_char c = (116::nat)) = (c = CHR ''t'')" "(of_char c = (84::nat)) = (c = CHR ''T'')"
  "(of_char c = (97::nat)) = (c = CHR ''a'')" "(of_char c = (65::nat)) = (c = CHR ''A'')"
  "(of_char c = (114::nat)) = (c = CHR ''r'')" "(of_char c = (82::nat)) = (c = CHR ''R'')"
  by (rule of_char_is, simp)+

lemma foldByte_cases:
  "foldByte c CHR ''.'' = (c = CHR ''.'')"
  "foldByte c CHR ''t'' = (c = CHR ''t'' \<or> c = CHR ''T'')"
  "foldByte c CHR ''a'' = (c = CHR ''a'' \<or> c = CHR ''A'')"
  "foldByte c CHR ''r'' = (c = CHR ''r'' \<or> c = CHR ''R'')"
  unfolding foldByte_def Let_def
  by (auto simp: min_def max_def of_char_letters)

lemma EqualFold_tar:
  "EqualFold s ''.tar'' =
     (\<exists>t a r. s = [CHR ''.'', t, a, r] \<and> (t = CHR ''t'' \<or> t = CHR ''T'')
        \<and> (a = CHR ''a'' \<or> a = CHR ''A'') \<and> (r = CHR ''r'' \<or> r = CHR ''R''))"
proof (cases s)
  case Nil
  then show ?thesis by simp
next
  case s1: (Cons c1 s1)
  show ?thesis
  proof (cases s1)
    case Nil
    with s1 show ?thesis by simp
  next
    case s2: (Cons c2 s2)
    show ?thesis
    proof (cases s2)
      case Nil
      with s1 s2 show ?thesis by simp
    next
      case s3: (Cons c3 s3)
      show ?thesis
      proof (cases s3)
        case Nil
        with s1 s2 s3 show ?thesis by simp
      next
        case s4: (Cons c4 s4)
        show ?thesis
        proof (cases s4)
          case Nil
          with s1 s2 s3 s4 show ?thesis by (simp add: foldByte_cases)
        next
          case (Cons c5 s5)
          with s1 s2 s3 s4 show ?thesis by simp
        qed
      qed
    qed
  qed
qed


text \<open>The paths the callback handles: those the walk passes without an error before the
  first call with an error. \<open>addRootfs\<close> is what the callback does to the map at such a
  path.\<close>

definition visited :: "(string \<times> string option) list \<Rightarrow> string list" where
  "visited w = map fst (takeWhile (\<lambda>entry. snd entry = None) w)"

definition addRootfs :: "(string \<rightharpoonup> string) \<Rightarrow> string \<Rightarrow> (string \<rightharpoonup> string)" where
  "addRootfs m path = (if isTar path then m(rootfsKey path \<mapsto> path) else m)"

lemma WalkDir_visited: "fst (WalkDir w m) = foldl addRootfs m (visited w)"
  by (induction w arbitrary: m)
     (auto simp: visited_def walkFn_def addRootfs_def split: option.splits)

lemma visited_append:
  "\<forall>entry \<in> set pre. snd entry = None \<Longrightarrow> visited (pre @ w) = map fst pre @ visited w"
  by (simp add: visited_def takeWhile_append2)

lemma foldl_addRootfs_other:
  "\<forall>p \<in> set ps. isTar p \<longrightarrow> rootfsKey p \<noteq> k \<Longrightarrow> foldl addRootfs m ps k = m k"
  by (induction ps arbitrary: m) (auto simp: addRootfs_def)

lemma foldl_addRootfs_some:
  "m k = Some v \<Longrightarrow>
   foldl addRootfs m ps k = Some v
   \<or> (\<exists>p \<in> set ps. isTar p \<and> rootfsKey p = k \<and> foldl addRootfs m ps k = Some p)"
proof (induction ps arbitrary: m v)
  case Nil
  then show ?case by simp
next
  case (Cons p ps)
  show ?case
  proof (cases "isTar p \<and> rootfsKey p = k")
    case True
    then have "addRootfs m p k = Some p" by (simp add: addRootfs_def)
    from Cons.IH [of "addRootfs m p" p, OF this] True show ?thesis by auto
  next
    case False
    then have "addRootfs m p k = Some v" using Cons.prems by (auto simp: addRootfs_def)
    from Cons.IH [of "addRootfs m p" v, OF this] show ?thesis by auto
  qed
qed

text \<open>
  C10 as stated fails on the map that main goes on with. Two files of the same base name
  in different directories: the name ends up bound to the later path, not to the path
  of the first file. A directory that cannot be read: the callback hands the error back,
  the walk ends, and a \<^verbatim>\<open>.tar\<close> file that the walk would have visited next gets no
  entry.
\<close>

theorem extra_rootfs_every_file_counterexample:
  "isTar ''/extra/a.tar''
   \<and> fst (WalkDir [(''/extra'', None), (''/extra/a.tar'', None), (''/extra/sub'', None),
                   (''/extra/sub/a.tar'', None)] Map.empty) (rootfsKey ''/extra/a.tar'')
       = Some ''/extra/sub/a.tar''
   \<and> isTar ''/extra/z.tar''
   \<and> fst (WalkDir [(''/extra'', None), (''/extra/locked'', None),
                   (''/extra/locked'', Some ''permission denied''), (''/extra/z.tar'', None)]
             Map.empty) (rootfsKey ''/extra/z.tar'')
       = None"
  by (simp add: walkFn_def isTar_def Ext_def foldByte_def rootfsKey_def Base_def
        TrimSuffix_def HasSuffix_def)

text \<open>
  C10 amended. At every path that the walk of \<^verbatim>\<open>ExtraRootfsDir\<close> hands to the callback
  without an error, before its first call with an error, and whose extension is
  \<^verbatim>\<open>.tar\<close> in any mix of upper and lower case, the map of root filesystems gains the
  entry from the base name without the extension to the path, whatever it held under
  that name before (a preloaded stack included). After the walk that name is still in
  the map, bound to the path of a visited \<^verbatim>\<open>.tar\<close> file of that base name: to this
  path unless a later one has the same base name. Names that no visited \<^verbatim>\<open>.tar\<close> file
  has keep their preloaded paths. A call with an error changes nothing and ends the walk;
  main then writes one line to the debug log and goes on: the step always returns.
\<close>

theorem extra_rootfs_entries:
  "(isTar path =
      (\<exists>t a r. Ext path = [CHR ''.'', t, a, r] \<and> (t = CHR ''t'' \<or> t = CHR ''T'')
         \<and> (a = CHR ''a'' \<or> a = CHR ''A'') \<and> (r = CHR ''r'' \<or> r = CHR ''R'')))
   \<and> walkFn m path (Some e) = (m, Some e)
   \<and> (isTar path \<longrightarrow> walkFn m path None = (m(rootfsKey path \<mapsto> path), None))
   \<and> (\<not> isTar path \<longrightarrow> walkFn m path None = (m, None))
   \<and> ((\<forall>entry \<in> set pre. snd entry = None) \<and> isTar path \<longrightarrow>
        fst (WalkDir (pre @ [(path, None)]) m) (rootfsKey path) = Some path
        \<and> (\<exists>p \<in> set (visited (pre @ (path, None) # post)).
              isTar p \<and> rootfsKey p = rootfsKey path
              \<and> fst (WalkDir (pre @ (path, None) # post) m) (rootfsKey path) = Some p)
        \<and> ((\<forall>p \<in> set (visited post). isTar p \<longrightarrow> rootfsKey p \<noteq> rootfsKey path) \<longrightarrow>
              fst (WalkDir (pre @ (path, None) # post) m) (rootfsKey path) = Some path))
   \<and> ((\<forall>p \<in> set (visited w). isTar p \<longrightarrow> rootfsKey p \<noteq> k) \<longrightarrow> fst (WalkDir w m) k = m k)
   \<and> extraRootfs E tr =
       (tr @ (case snd (WalkDir (walk E) (StackPathMap E)) of
                Some err \<Rightarrow> [LogDebug ''missing-extra-rootfs'']
              | None \<Rightarrow> []),
        Inr (fst (WalkDir (walk E) (StackPathMap E))))"
proof (intro conjI impI)
  show "isTar path =
      (\<exists>t a r. Ext path = [CHR ''.'', t, a, r] \<and> (t = CHR ''t'' \<or> t = CHR ''T'')
         \<and> (a = CHR ''a'' \<or> a = CHR ''A'') \<and> (r = CHR ''r'' \<or> r = CHR ''R''))"
    by (simp add: isTar_def EqualFold_tar)
  show "walkFn m path (Some e) = (m, Some e)"
    by (simp add: walkFn_def)
  show "isTar path \<Longrightarrow> walkFn m path None = (m(rootfsKey path \<mapsto> path), None)"
    by (simp add: walkFn_def)
  show "\<not> isTar path \<Longrightarrow> walkFn m path None = (m, None)"
    by (simp add: walkFn_def)
  show "extraRootfs E tr =
       (tr @ (case snd (WalkDir (walk E) (StackPathMap E)) of
                Some err \<Rightarrow> [LogDebug ''missing-extra-rootfs'']
              | None \<Rightarrow> []),
        Inr (fst (WalkDir (walk E) (StackPathMap E))))"
    by (simp add: extraRootfs_eq walkLog_def)
  show "\<forall>p \<in> set (visited w). isTar p \<longrightarrow> rootfsKey p \<noteq> k \<Longrightarrow> fst (WalkDir w m) k = m k"
    by (simp add: WalkDir_visited foldl_addRootfs_other)
next
  assume a: "(\<forall>entry \<in> set pre. snd entry = None) \<and> isTar path"
  then have pre: "\<forall>entry \<in> set pre. snd entry = None" and tar: "isTar path" by simp_all
  let ?k = "rootfsKey path"
  let ?m1 = "foldl addRootfs m (map fst pre)"
  have v1: "visited (pre @ [(path, None)]) = map fst pre @ [path]"
    using visited_append [OF pre, of "[(path, None)]"] by (simp add: visited_def)
  have v: "visited (pre @ (path, None) # post) = map fst pre @ path # visited post"
    using visited_append [OF pre, of "(path, None) # post"] by (simp add: visited_def)
  show at_visit: "fst (WalkDir (pre @ [(path, None)]) m) ?k = Some path"
    using tar by (simp add: WalkDir_visited v1 addRootfs_def)
  have final: "fst (WalkDir (pre @ (path, None) # post) m)
                 = foldl addRootfs (addRootfs ?m1 path) (visited post)"
    by (simp add: WalkDir_visited v)
  have here: "addRootfs ?m1 path ?k = Some path"
    using tar by (simp add: addRootfs_def)
  from foldl_addRootfs_some [of "addRootfs ?m1 path" ?k path "visited post", OF here]
  show "\<exists>p \<in> set (visited (pre @ (path, None) # post)).
              isTar p \<and> rootfsKey p = ?k
              \<and> fst (WalkDir (pre @ (path, None) # post) m) ?k = Some p"
    unfolding final v using tar by auto
  show "\<forall>p \<in> set (visited post). isTar p \<longrightarrow> rootfsKey p \<noteq> ?k \<Longrightarrow>
        fst (WalkDir (pre @ (path, None) # post) m) ?k = Some path"
    unfolding final using here by (simp add: foldl_addRootfs_other)
qed


theorem extra_rootfs_entries_witness:
  "isTar ''/extra/cflinuxfs4.TAR''
   \<and> rootfsKey ''/extra/cflinuxfs4.TAR'' = ''cflinuxfs4''
   \<and> fst (WalkDir [(''/extra'', None), (''/extra/cflinuxfs4.TAR'', None), (''/extra/lib.txt'', None)]
             [''cflinuxfs4'' \<mapsto> ''/preloaded/cflinuxfs4'']) ''cflinuxfs4''
       = Some ''/extra/cflinuxfs4.TAR''"
proof -
  have t: "isTar ''/extra/cflinuxfs4.TAR''"
    by (simp add: isTar_def Ext_def foldByte_def)
  have k: "rootfsKey ''/extra/cflinuxfs4.TAR'' = ''cflinuxfs4''"
    by (simp add: rootfsKey_def Ext_def Base_def TrimSuffix_def HasSuffix_def)
  have n: "\<not> isTar ''/extra/lib.txt''"
    by (simp add: isTar_def Ext_def foldByte_def)
  have v: "visited [(''/extra/lib.txt'', None)] = [''/extra/lib.txt'']"
    by (simp add: visited_def)
  show ?thesis
    using t k n
      extra_rootfs_entries [where path = "''/extra/cflinuxfs4.TAR''"
        and pre = "[(''/extra'', None)]" and post = "[(''/extra/lib.txt'', None)]"
        and m = "[''cflinuxfs4'' \<mapsto> ''/preloaded/cflinuxfs4'']"]
    by (simp add: v)
qed

subsection \<open>C1: the sliding queue of depth 1\<close>

text \<open>
  Modelled from the spec: the operation queue (package \<^verbatim>\<open>operationq\<close>, whose
  \<^verbatim>\<open>NewSlidingQueue\<close> main.go calls) is not among the sources. Section 4.1 of
  the spec: a pushed operation for a key with nothing running or queued starts as soon
  as a worker is free; one that is queued and not yet started is evicted and replaced by
  a later push; while one is executing, the pushed operation becomes the pending
  successor and runs after completion. Section 9: per key the queue holds what is in
  flight and what is pending. The depth is the number of pending operations a key
  retains: a push beyond it slides the oldest pending operation out.
\<close>

record 'op lane =
  inFlight :: "'op option"
  pending :: "'op list"

datatype 'op action = Push string 'op | Start string | Complete string

definition slide :: "nat \<Rightarrow> 'op list \<Rightarrow> 'op list" where
  "slide depth ops = drop (length ops - depth) ops"

definition push :: "nat \<Rightarrow> 'op \<Rightarrow> 'op lane \<Rightarrow> 'op lane" where
  "push depth op l = l\<lparr>pending := slide depth (pending l @ [op])\<rparr>"

text \<open>A free worker takes the oldest pending operation of a key that has nothing in
  flight.\<close>

definition start :: "'op lane \<Rightarrow> 'op lane" where
  "start l =
     (case (inFlight l, pending l) of
        (None, op # rest) \<Rightarrow> l\<lparr>inFlight := Some op, pending := rest\<rparr>
      | other \<Rightarrow> l)"

definition complete :: "'op lane \<Rightarrow> 'op lane" where
  "complete l = l\<lparr>inFlight := None\<rparr>"

fun act :: "nat \<Rightarrow> (string \<Rightarrow> 'op lane) \<Rightarrow> 'op action \<Rightarrow> (string \<Rightarrow> 'op lane)" where
  "act depth q (Push key op) = q(key := push depth op (q key))"
| "act depth q (Start key) = q(key := start (q key))"
| "act depth q (Complete key) = q(key := complete (q key))"

definition emptyQueue :: "string \<Rightarrow> 'op lane" where
  "emptyQueue key = \<lparr>inFlight = None, pending = []\<rparr>"

definition runQueue :: "nat \<Rightarrow> 'op action list \<Rightarrow> (string \<Rightarrow> 'op lane)" where
  "runQueue depth actions = foldl (act depth) emptyQueue actions"

lemma slide_length: "length (slide depth ops) \<le> depth"
  by (simp add: slide_def)

lemma act_bounded:
  "\<forall>key. length (pending (q key)) \<le> depth \<Longrightarrow> length (pending (act depth q a key)) \<le> depth"
proof (cases a)
  case (Push k op)
  assume "\<forall>key. length (pending (q key)) \<le> depth"
  with Push show ?thesis by (simp add: push_def slide_length)
next
  case (Start k)
  assume b: "\<forall>key. length (pending (q key)) \<le> depth"
  then have "length (pending (q k)) \<le> depth" by simp
  then have "length (pending (start (q k))) \<le> depth"
    by (auto simp: start_def split: option.split list.split)
  with Start b show ?thesis by simp
next
  case (Complete k)
  assume "\<forall>key. length (pending (q key)) \<le> depth"
  with Complete show ?thesis by (simp add: complete_def)
qed

lemma foldl_act_bounded:
  "\<forall>key. length (pending (q key)) \<le> depth \<Longrightarrow>
   length (pending (foldl (act depth) q actions key)) \<le> depth"
proof (induction actions arbitrary: q key)
  case Nil
  then show ?case by simp
next
  case (Cons a actions)
  have "\<forall>key. length (pending (act depth q a key)) \<le> depth"
    using act_bounded [OF Cons.prems] by simp
  from Cons.IH [OF this] show ?case by simp
qed

lemma runQueue_bounded: "length (pending (runQueue depth actions key)) \<le> depth"
  unfolding runQueue_def by (rule foldl_act_bounded) (simp add: emptyQueue_def)

lemma push_depth1: "pending (push 1 op l) = [op]"
  by (simp add: push_def slide_def)

text \<open>
  C1. Every queue that main constructs is a sliding queue of depth 1, and a run that
  reaches the supervisor has constructed one. In a queue of depth 1 every key retains at
  most one pending operation at any time, whatever is pushed, started and completed: a
  push leaves exactly the pushed operation pending, behind whatever is in flight for the
  key, which the push does not touch.
\<close>

theorem sliding_queue_depth_one:
  "(NewSlidingQueue depth \<in> set (fst (main E)) \<longrightarrow> depth = 1)
   \<and> (served (fst (main E)) \<longrightarrow> NewSlidingQueue 1 \<in> set (fst (main E)))
   \<and> length (pending (runQueue 1 actions key)) \<le> 1
   \<and> pending (runQueue 1 (actions @ [Push key op]) key) = [op]
   \<and> inFlight (runQueue 1 (actions @ [Push key op]) key) = inFlight (runQueue 1 actions key)"
proof (intro conjI impI)
  assume "NewSlidingQueue depth \<in> set (fst (main E))"
  with main_asWritten [of E] have "asWritten (NewSlidingQueue depth)"
    by (auto simp: list_all_iff)
  then show "depth = 1" by simp
next
  assume "served (fst (main E))"
  then have "fst (main E) = servedTrace E"
    by (simp add: served_iff main_startupOK)
  then show "NewSlidingQueue 1 \<in> set (fst (main E))"
    by (simp add: servedTrace_def wiredEvents_def)
next
  show "length (pending (runQueue 1 actions key)) \<le> 1"
    by (rule runQueue_bounded)
  show "pending (runQueue 1 (actions @ [Push key op]) key) = [op]"
    using push_depth1 [of op "runQueue 1 actions key"] by (simp add: runQueue_def)
  show "inFlight (runQueue 1 (actions @ [Push key op]) key) = inFlight (runQueue 1 actions key)"
    by (simp add: runQueue_def push_def)
qed

theorem sliding_queue_depth_one_witness:
  "served (fst (main sampleEnv))
   \<and> NewSlidingQueue 1 \<in> set (fst (main sampleEnv))
   \<and> runQueue 1 [Push ''lrp-1'' (1::nat), Start ''lrp-1'', Push ''lrp-1'' 2, Push ''lrp-1'' 3] ''lrp-1''
       = \<lparr>inFlight = Some 1, pending = [3]\<rparr>"
proof -
  have s: "served (fst (main sampleEnv))"
    by (simp add: served_iff startupOK_sample)
  have r: "runQueue 1 [Push ''lrp-1'' (1::nat), Start ''lrp-1'', Push ''lrp-1'' 2, Push ''lrp-1'' 3] ''lrp-1''
       = \<lparr>inFlight = Some 1, pending = [3]\<rparr>"
    by (simp add: runQueue_def emptyQueue_def push_def slide_def start_def)
  from s r sliding_queue_depth_one
      [of 1 sampleEnv "[Push ''lrp-1'' (1::nat), Start ''lrp-1'', Push ''lrp-1'' 2]" "''lrp-1''" 3]
  show ?thesis by simp
qed

subsection \<open>C5: a member that fails\<close>

text \<open>
  Modelled from the spec: the supervisor (\<^verbatim>\<open>grouper.NewOrdered\<close>, run under
  \<^verbatim>\<open>sigmon\<close> by \<^verbatim>\<open>ifrit.Invoke\<close>) is not among the sources. Section 9 of the spec:
  an explicit task supervisor that starts the components in order and shuts them down
  in order on the first failure or signal; sections 6 and 7: the failure of a member
  (the loss of the presence lease) is fatal to the process. The argument lists the
  members that ran, in order, each with the error its runner ended with; the supervisor
  ends with an error exactly when one of them did, and reports the first.
\<close>

definition superviseOrdered :: "(string \<times> string option) list \<Rightarrow> string option" where
  "superviseOrdered exits =
     (case filter (\<lambda>member. snd member \<noteq> None) exits of
        [] \<Rightarrow> None
      | member # others \<Rightarrow> snd member)"

lemma superviseOrdered_fails:
  "\<exists>member \<in> set exits. snd member \<noteq> None \<Longrightarrow> \<exists>err. superviseOrdered exits = Some err"
proof -
  assume "\<exists>member \<in> set exits. snd member \<noteq> None"
  then have "filter (\<lambda>member. snd member \<noteq> None) exits \<noteq> []"
    by (auto simp: filter_empty_conv)
  then obtain m ms where f: "filter (\<lambda>member. snd member \<noteq> None) exits = m # ms"
    by (cases "filter (\<lambda>member. snd member \<noteq> None) exits") auto
  then have "m \<in> set (filter (\<lambda>member. snd member \<noteq> None) exits)" by simp
  then have "snd m \<noteq> None" by simp
  with f show ?thesis by (auto simp: superviseOrdered_def)
qed

text \<open>
  C5. In a run that reaches the supervisor, the group that main hands to it holds the
  presence runner, both servers, the evacuation cleanup, the bulker, the event consumer,
  the evacuator and the request metrics notifier (after the executor's members). When
  the supervisor delivers an error, main logs it and the process exits with status 1;
  when it delivers none, main returns. So when a member's runner ends with an error, the
  presence runner's included, the process exits with status 1.
\<close>

theorem member_failure_exits_with_status_1:
  "(served (fst (main E)) \<longrightarrow>
      (\<exists>executorMembers.
          Invoke ((if DebugAddress (theConfig E) \<noteq> [] then [''debug-server''] else [])
                  @ executorMembers
                  @ [''presence'', ''http_server'', ''https_server'', ''evacuation-cleanup'',
                     ''bulker'', ''event-consumer'', ''evacuator'', ''request-metrics-notifier''])
            \<in> set (fst (main E))))
   \<and> (served (fst (main E)) \<and> monitorWait E = Some err \<longrightarrow>
        snd (main E) = Inl (Exit 1) \<and> last (fst (main E)) = LogError ''exited-with-failure'')
   \<and> (served (fst (main E)) \<and> monitorWait E = None \<longrightarrow> snd (main E) = Inr ())
   \<and> (served (fst (main E)) \<and> monitorWait E = superviseOrdered exits
        \<and> (\<exists>member \<in> set exits. snd member \<noteq> None) \<longrightarrow>
        snd (main E) = Inl (Exit 1))"
proof (intro conjI impI)
  assume "served (fst (main E))"
  then have "main E = (servedTrace E, case monitorWait E of Some e \<Rightarrow> Inl (Exit 1) | None \<Rightarrow> Inr ())"
    by (simp add: served_iff main_startupOK)
  then show "\<exists>executorMembers.
          Invoke ((if DebugAddress (theConfig E) \<noteq> [] then [''debug-server''] else [])
                  @ executorMembers
                  @ [''presence'', ''http_server'', ''https_server'', ''evacuation-cleanup'',
                     ''bulker'', ''event-consumer'', ''evacuator'', ''request-metrics-notifier''])
            \<in> set (fst (main E))"
    by (auto simp: servedTrace_def memberNames_def)
next
  assume "served (fst (main E)) \<and> monitorWait E = Some err"
  then have m: "main E = (servedTrace E, Inl (Exit 1))" and w: "monitorWait E = Some err"
    by (simp_all add: served_iff main_startupOK)
  show "snd (main E) = Inl (Exit 1)" using m by simp
  show "last (fst (main E)) = LogError ''exited-with-failure''"
    using m w by (simp add: servedTrace_def)
next
  assume "served (fst (main E)) \<and> monitorWait E = None"
  then show "snd (main E) = Inr ()"
    by (simp add: served_iff main_startupOK)
next
  assume a: "served (fst (main E)) \<and> monitorWait E = superviseOrdered exits
        \<and> (\<exists>member \<in> set exits. snd member \<noteq> None)"
  then obtain err where w: "monitorWait E = Some err"
    using superviseOrdered_fails [of exits] by auto
  from a have "startupOK E" by (simp add: served_iff)
  then show "snd (main E) = Inl (Exit 1)"
    by (simp add: main_startupOK w)
qed

theorem member_failure_exits_with_status_1_witness:
  "served (fst (main (sampleEnv\<lparr>monitorWait := superviseOrdered
       [(''garden'', None), (''presence'', Some ''lost lock''), (''http_server'', None)]\<rparr>)))
   \<and> superviseOrdered [(''garden'', None), (''presence'', Some ''lost lock''), (''http_server'', None)]
       = Some ''lost lock''
   \<and> snd (main (sampleEnv\<lparr>monitorWait := superviseOrdered
       [(''garden'', None), (''presence'', Some ''lost lock''), (''http_server'', None)]\<rparr>))
       = Inl (Exit 1)
   \<and> snd (main sampleEnv) = Inr ()"
proof -
  let ?exits = "[(''garden'', None), (''presence'', Some ''lost lock''), (''http_server'', None)]"
  let ?E = "sampleEnv\<lparr>monitorWait := superviseOrdered ?exits\<rparr>"
  have ok: "startupOK ?E"
    using startupOK_sample
    by (simp add: startupOK_def configureOK_def buildOK_def theConfig_def sampleEnv_def)
  then have s: "served (fst (main ?E))" by (simp add: served_iff)
  have s0: "served (fst (main sampleEnv))" by (simp add: served_iff startupOK_sample)
  have w: "monitorWait sampleEnv = None" by (simp add: sampleEnv_def)
  have e: "superviseOrdered ?exits = Some ''lost lock''"
    by (simp add: superviseOrdered_def)
  from s s0 w e
    member_failure_exits_with_status_1 [of ?E "''lost lock''" ?exits]
    member_failure_exits_with_status_1 [of sampleEnv "''lost lock''" ?exits]
  show ?thesis by simp
qed

subsection \<open>C3: the certificate check and the routes of the two servers\<close>




















end
